theory Spec2Isabelle
  imports Complex_Main "HOL-Library.Sublist" "HOL-Library.Word" "HOL-Library.Log_Nat"
    "HOL-Library.AList"
begin

section \<open>Whiteboard to prototype: a model of \<^verbatim>\<open>server.js\<close>\<close>

text \<open>
  The server receives a photograph, sends it to a hosted model, cleans the returned text,
  writes it to \<^verbatim>\<open>index.html\<close>, computes the cost of the call and prepends a
  session record to a history file. Everything outside the process (file system, image
  library, the hosted model, clock, UUID generator) is opaque to the program; here each
  such call takes its outcome from an environment record, and the files the claims talk
  about are explicit state.
\<close>

subsection \<open>Strings\<close>

text \<open>
  A JavaScript string is a sequence of UTF-16 code units. Literals of the source are
  written with \<open>js\<close>, which maps each character of an ASCII literal to its code unit.
\<close>

type_synonym code_unit = "16 word"
type_synonym jsstring = "code_unit list"

definition js :: "string \<Rightarrow> jsstring" where
  "js s = map of_char s"

definition NL :: code_unit where "NL = 0x0A"
definition BACKTICK :: code_unit where "BACKTICK = 0x60"
definition SLASH :: code_unit where "SLASH = 0x2F"
definition COLON :: code_unit where "COLON = 0x3A"
definition DOT :: code_unit where "DOT = 0x2E"
definition DASH :: code_unit where "DASH = 0x2D"

text \<open>The two markers of line 343: three backticks, and three backticks followed by \<open>html\<close>.\<close>

definition FENCE :: jsstring where
  "FENCE = [BACKTICK, BACKTICK, BACKTICK]"

definition FENCE_HTML :: jsstring where
  "FENCE_HTML = FENCE @ js ''html''"

text \<open>
  \<^verbatim>\<open>s.replace(/p\n?/g, '')\<close> for a literal, non-empty \<open>p\<close>: the string is scanned from
  the left; where \<open>p\<close> starts, it is dropped together with one following newline if there
  is one, and the scan goes on behind the match; any other code unit is kept.
\<close>

fun skip_newline :: "jsstring \<Rightarrow> jsstring" where
  "skip_newline [] = []"
| "skip_newline (c # r) = (if c = NL then r else c # r)"

function replace_all :: "jsstring \<Rightarrow> jsstring \<Rightarrow> jsstring" where
  "replace_all p [] = []"
| "replace_all p (c # r) =
     (if p \<noteq> [] \<and> prefix p (c # r)
      then replace_all p (skip_newline (drop (length p) (c # r)))
      else c # replace_all p r)"
  by pat_completeness auto
termination
proof (relation "measure (\<lambda>(p, s). length s)")
  show "wf (measure (\<lambda>(p, s). length s))" by simp
next
  fix p :: jsstring and c :: code_unit and r :: jsstring
  assume "p \<noteq> [] \<and> prefix p (c # r)"
  then have "length (drop (length p) (c # r)) < Suc (length r)"
    by (cases p) auto
  moreover have "length (skip_newline s) \<le> length s" for s
    by (cases s) auto
  ultimately have "length (skip_newline (drop (length p) (c # r))) < Suc (length r)"
    using le_less_trans by blast
  then show "((p, skip_newline (drop (length p) (c # r))), (p, c # r))
      \<in> measure (\<lambda>(p, s). length s)"
    by simp
next
  fix p :: jsstring and c :: code_unit and r :: jsstring
  show "((p, r), (p, c # r)) \<in> measure (\<lambda>(p, s). length s)" by simp
qed

text \<open>
  \<^verbatim>\<open>String.prototype.trim\<close> removes white space and line terminators from both ends:
  TAB, LF, VT, FF, CR, SP, NBSP, the Unicode space separators, LS, PS and the byte order
  mark.
\<close>

definition is_white_space :: "code_unit \<Rightarrow> bool" where
  "is_white_space c \<longleftrightarrow>
     c \<in> set [0x09, 0x0A, 0x0B, 0x0C, 0x0D, 0x20, 0xA0, 0x1680, 0x2000, 0x2001, 0x2002,
       0x2003, 0x2004, 0x2005, 0x2006, 0x2007, 0x2008, 0x2009, 0x200A, 0x2028, 0x2029,
       0x202F, 0x205F, 0x3000, 0xFEFF]"

definition trim :: "jsstring \<Rightarrow> jsstring" where
  "trim s = rev (dropWhile is_white_space (rev (dropWhile is_white_space s)))"

subsection \<open>Cleaning the model's response (lines 339 to 348)\<close>

text \<open>
  \<^verbatim>\<open>htmlContent.replace(/```html\n?/g, '').replace(/```\n?/g, '').trim()\<close>, then the
  document type line is put in front unless the text starts with \<^verbatim>\<open><!DOCTYPE\<close> or with
  \<^verbatim>\<open><html\<close>.
\<close>

definition strip_fences :: "jsstring \<Rightarrow> jsstring" where
  "strip_fences t = trim (replace_all FENCE (replace_all FENCE_HTML t))"

definition DOCTYPE_LINE :: jsstring where
  "DOCTYPE_LINE = js ''<!DOCTYPE html>'' @ [NL]"

definition ensure_doctype :: "jsstring \<Rightarrow> jsstring" where
  "ensure_doctype h =
     (if \<not> prefix (js ''<!DOCTYPE'') h \<and> \<not> prefix (js ''<html'') h
      then DOCTYPE_LINE @ h else h)"

definition clean_html :: "jsstring \<Rightarrow> jsstring" where
  "clean_html t = ensure_doctype (strip_fences t)"

text \<open>
  A body fenced the way Markdown fences a code block: the opening fence on a line of its
  own (bare, or tagged \<open>html\<close>), the body, and the closing fence on a line of its own.
\<close>

definition fenced_generic :: "jsstring \<Rightarrow> jsstring" where
  "fenced_generic t = FENCE @ [NL] @ t @ [NL] @ FENCE"

definition fenced_html :: "jsstring \<Rightarrow> jsstring" where
  "fenced_html t = FENCE_HTML @ [NL] @ t @ [NL] @ FENCE"

subsection \<open>Numbers\<close>

text \<open>
  A JavaScript number is an IEEE 754 double. A finite double is a rational number, and
  every arithmetic operation returns the exact result rounded to the nearest double, ties
  to the even significand. \<open>fl\<close> is that rounding with 53 significant bits:
  \<open>binade x\<close> is the exponent of the greatest power of two that is at most \<open>x\<close>, found
  from the bit lengths of numerator and denominator. The exponent is not bounded here, so
  subnormal numbers and overflow to infinity are left out; the quotients, products and
  sums of \<open>calculateCost\<close> are zero or far inside the normal range.
\<close>

definition round_half_even :: "rat \<Rightarrow> int" where
  "round_half_even x =
     (let f = \<lfloor>x\<rfloor>; r = x - of_int f
      in if r < 1 / 2 then f else if 1 / 2 < r then f + 1 else if even f then f else f + 1)"

definition binade :: "rat \<Rightarrow> int" where
  "binade x =
     (let (p, q) = quotient_of x; d = bitlen p - bitlen q
      in if 2 powi d \<le> x then d else d - 1)"

definition fl :: "rat \<Rightarrow> rat" where
  "fl x =
     (if x = 0 then 0
      else let e = binade \<bar>x\<bar> - 52
           in sgn x * of_int (round_half_even (\<bar>x\<bar> / 2 powi e)) * 2 powi e)"

text \<open>
  \<^verbatim>\<open>Number.prototype.toFixed(f)\<close> for \<open>0 < f\<close> and a number below \<open>10 ^ 21\<close>: with \<open>n\<close> the
  integer nearest to \<open>x * 10 ^ f\<close> (the larger one on a tie), the decimal digits of \<open>n\<close>,
  padded with zeros on the left to \<open>f + 1\<close> digits, with a point before the last \<open>f\<close>; a
  negative number is formatted as its absolute value behind a minus sign. It reads the
  exact value of the double.
\<close>

function digits :: "int \<Rightarrow> string" where
  "digits n =
     (if n < 10 then [''0123456789'' ! nat n]
      else digits (n div 10) @ [''0123456789'' ! nat (n mod 10)])"
  by pat_completeness auto
termination
  by (relation "measure nat") auto

definition toFixed_abs :: "nat \<Rightarrow> rat \<Rightarrow> string" where
  "toFixed_abs f x =
     (let n = round (x * 10 ^ f);
          m = digits n;
          m = (if length m \<le> f then replicate (f + 1 - length m) (CHR ''0'') @ m else m);
          k = length m
      in take (k - f) m @ ''.'' @ drop (k - f) m)"

definition toFixed :: "nat \<Rightarrow> rat \<Rightarrow> string" where
  "toFixed f x = (if x < 0 then CHR ''-'' # toFixed_abs f (- x) else toFixed_abs f x)"

text \<open>
  \<^verbatim>\<open>parseFloat\<close> on an unsigned decimal literal with a point, which is what \<open>toFixed\<close>
  returns for a number that is not negative: the double nearest to the decimal value.
\<close>

definition digit_value :: "char \<Rightarrow> int" where
  "digit_value c = of_char c - 48"

definition digits_value :: "string \<Rightarrow> int" where
  "digits_value s = foldl (\<lambda>a c. 10 * a + digit_value c) 0 s"

definition decimal_value :: "string \<Rightarrow> rat" where
  "decimal_value s =
     (let ip = takeWhile (\<lambda>c. c \<noteq> CHR ''.'') s; fp = drop (length ip + 1) s
      in of_int (digits_value ip) + of_int (digits_value fp) / 10 ^ length fp)"

definition parseFloat :: "string \<Rightarrow> rat" where
  "parseFloat s = fl (decimal_value s)"

subsection \<open>Cost calculation (lines 209 to 219)\<close>

definition COST_PER_MILLION_INPUT :: rat where "COST_PER_MILLION_INPUT = 15"
definition COST_PER_MILLION_OUTPUT :: rat where "COST_PER_MILLION_OUTPUT = 75"

record cost_breakdown =
  inputCost :: string
  outputCost :: string
  totalCost :: string

text \<open>Token counts are natural numbers below \<open>2 ^ 53\<close>, which doubles hold exactly.\<close>

definition calculateCost :: "nat \<Rightarrow> nat \<Rightarrow> cost_breakdown" where
  "calculateCost inputTokens outputTokens =
     (let inputCost = fl (fl (of_nat inputTokens / 1000000) * COST_PER_MILLION_INPUT);
          outputCost = fl (fl (of_nat outputTokens / 1000000) * COST_PER_MILLION_OUTPUT);
          totalCost = fl (inputCost + outputCost)
      in \<lparr> inputCost = toFixed 6 inputCost,
           outputCost = toFixed 6 outputCost,
           totalCost = toFixed 6 totalCost \<rparr>)"

subsection \<open>JSON values and errors\<close>

datatype json =
    JNull
  | JBool bool
  | JNum rat
  | JStr jsstring
  | JArr "json list"
  | JObj "(string \<times> json) list"

text \<open>A thrown \<^verbatim>\<open>Error\<close> object, as far as the server reads it: its message.\<close>

datatype js_error = Error (message: jsstring)

text \<open>\<^verbatim>\<open>x || d\<close> on a value that is a string or undefined: the empty string is falsy.\<close>

fun or_else :: "jsstring option \<Rightarrow> jsstring \<Rightarrow> jsstring" where
  "or_else None d = d"
| "or_else (Some s) d = (if s = [] then d else s)"

definition field :: "string \<Rightarrow> json \<Rightarrow> json option" where
  "field k j = (case j of JObj kvs \<Rightarrow> map_of kvs k | _ \<Rightarrow> None)"

subsection \<open>History store (lines 77 to 112)\<close>

text \<open>
  The history file, as \<open>loadHistory\<close> can find it: missing; present but unreadable
  (\<^verbatim>\<open>fs.readFile\<close> throws); readable text that \<^verbatim>\<open>JSON.parse\<close> rejects; or text that parses
  to a JSON value. What \<^verbatim>\<open>JSON.stringify\<close> writes parses back to the value written.
\<close>

datatype history_file =
    Missing
  | Unreadable js_error
  | Malformed js_error
  | Parsed json

definition empty_history :: json where
  "empty_history = JObj [(''sessions'', JArr [])]"

text \<open>
  The body of the \<^verbatim>\<open>try\<close> block of \<open>loadHistory\<close>: it throws, returns the parsed value, or
  falls through (\<open>Inr None\<close>) when the file does not exist.
\<close>

definition loadHistory_try :: "history_file \<Rightarrow> js_error + json option" where
  "loadHistory_try f =
     (case f of
        Missing \<Rightarrow> Inr None
      | Unreadable e \<Rightarrow> Inl e
      | Malformed e \<Rightarrow> Inl e
      | Parsed j \<Rightarrow> Inr (Some j))"

definition loadHistory :: "history_file \<Rightarrow> json" where
  "loadHistory f =
     (case loadHistory_try f of
        Inl e \<Rightarrow> empty_history
      | Inr None \<Rightarrow> empty_history
      | Inr (Some j) \<Rightarrow> j)"

text \<open>
  \<open>saveHistory\<close> catches a failed write and logs it; the file is then taken to keep its
  contents.
\<close>

definition saveHistory :: "bool \<Rightarrow> json \<Rightarrow> history_file \<Rightarrow> history_file" where
  "saveHistory write_ok history f = (if write_ok then Parsed history else f)"

text \<open>
  \<^verbatim>\<open>history.sessions.unshift(session)\<close> throws a \<^verbatim>\<open>TypeError\<close> unless the loaded value is
  an object whose \<open>sessions\<close> is an array; nothing in \<open>addToHistory\<close> catches it. The
  messages are the engine's.
\<close>

definition unshift_TypeError :: "json \<Rightarrow> js_error" where
  "unshift_TypeError history =
     (case history of
        JNull \<Rightarrow> Error (js ''Cannot read properties of null (reading 'sessions')'')
      | JObj kvs \<Rightarrow>
          (case map_of kvs ''sessions'' of
             None \<Rightarrow> Error (js ''Cannot read properties of undefined (reading 'unshift')'')
           | Some JNull \<Rightarrow> Error (js ''Cannot read properties of null (reading 'unshift')'')
           | Some _ \<Rightarrow> Error (js ''history.sessions.unshift is not a function''))
      | _ \<Rightarrow> Error (js ''Cannot read properties of undefined (reading 'unshift')''))"

definition addToHistory :: "bool \<Rightarrow> json \<Rightarrow> history_file \<Rightarrow> js_error + history_file" where
  "addToHistory write_ok session f =
     (let history = loadHistory f in
      case history of
        JObj kvs \<Rightarrow>
          (case map_of kvs ''sessions'' of
             Some (JArr xs) \<Rightarrow>
               let unshifted = session # xs;
                   kvs1 = AList.update ''sessions'' (JArr unshifted) kvs;
                   kvs2 = (if length unshifted > 100
                           then AList.update ''sessions'' (JArr (take 100 unshifted)) kvs1
                           else kvs1)
               in Inr (saveHistory write_ok (JObj kvs2) f)
           | _ \<Rightarrow> Inl (unshift_TypeError history))
      | _ \<Rightarrow> Inl (unshift_TypeError history))"

text \<open>The \<open>sessions\<close> array of the stored document, when it has one.\<close>

definition stored_sessions :: "history_file \<Rightarrow> json list option" where
  "stored_sessions f =
     (case field ''sessions'' (loadHistory f) of Some (JArr xs) \<Rightarrow> Some xs | _ \<Rightarrow> None)"

text \<open>
  A sequence of append operations: each is a session and the outcome of its write. The
  first exception ends the sequence.
\<close>

fun appends :: "(json \<times> bool) list \<Rightarrow> history_file \<Rightarrow> js_error + history_file" where
  "appends [] f = Inr f"
| "appends ((session, write_ok) # ops) f =
     (case addToHistory write_ok session f of
        Inl e \<Rightarrow> Inl e
      | Inr f' \<Rightarrow> appends ops f')"

definition written_sessions :: "(json \<times> bool) list \<Rightarrow> json list" where
  "written_sessions ops = map fst (filter snd ops)"

subsection \<open>Upload storage (lines 175 to 195)\<close>

text \<open>
  \<^verbatim>\<open>path.join\<close> of two segments that need no normalising, and \<^verbatim>\<open>s.split('/').pop()\<close>.
\<close>

definition path_join :: "jsstring \<Rightarrow> jsstring \<Rightarrow> jsstring" where
  "path_join a b = a @ [SLASH] @ b"

definition last_segment :: "jsstring \<Rightarrow> jsstring" where
  "last_segment s = rev (takeWhile (\<lambda>c. c \<noteq> SLASH) (rev s))"

text \<open>\<^verbatim>\<open>new Date().toISOString().replace(/[:.]/g, '-')\<close> on the ISO text of the clock.\<close>

definition dashed :: "jsstring \<Rightarrow> jsstring" where
  "dashed stamp = map (\<lambda>c. if c = COLON \<or> c = DOT then DASH else c) stamp"

record client_file =
  originalname :: jsstring
  mimetype :: jsstring
  size_bytes :: nat

record uploaded_file = client_file +
  filename :: jsstring

definition storage_filename :: "jsstring \<Rightarrow> jsstring" where
  "storage_filename now = js ''whiteboard-'' @ dashed now @ js ''.jpg''"

definition fileFilter :: "client_file \<Rightarrow> bool" where
  "fileFilter f = prefix (js ''image/'') (mimetype f)"

text \<open>
  \<^verbatim>\<open>upload.single('whiteboard')\<close>: no file part leaves \<^verbatim>\<open>req.file\<close> undefined; a file that
  the filter refuses or that is over the size limit is an error passed to the framework,
  and the route's handler does not run.
\<close>

definition upload_single :: "jsstring \<Rightarrow> client_file option \<Rightarrow> js_error + uploaded_file option" where
  "upload_single now part =
     (case part of
        None \<Rightarrow> Inr None
      | Some f \<Rightarrow>
          if \<not> fileFilter f then Inl (Error (js ''Only image files are allowed''))
          else if 50 * 1024 * 1024 < size_bytes f then Inl (Error (js ''File too large''))
          else Inr (Some (client_file.extend f (uploaded_file.fields (storage_filename now)))))"

subsection \<open>Building the prototype (lines 225 to 394)\<close>

datatype content_block = TextBlock jsstring | OtherBlock

record message =
  content :: "content_block list"
  input_tokens :: nat
  output_tokens :: nat

text \<open>
  The outcomes of the calls that leave the process, in the order of the program:
  \<^verbatim>\<open>__dirname\<close>, \<^verbatim>\<open>uuidv4()\<close>, the clock at the start of the build, \<^verbatim>\<open>fs.mkdir\<close>,
  \<open>compressImage\<close>, \<open>imageToBase64\<close>, \<^verbatim>\<open>anthropic.messages.create\<close>, the milliseconds
  the call took, \<^verbatim>\<open>fs.writeFile\<close> of the prototype, the clock for the result's timestamp,
  and the write of the history file. \<open>createThumbnail\<close> catches its own errors and its
  result is not read, so it has no entry. The prompt is built and sent, and the response
  is whatever the environment says, so the prompt's text is left out.
\<close>

record env =
  dirname :: jsstring
  uuid :: jsstring
  build_clock :: jsstring
  mkdir_out :: "js_error option"
  compress_out :: "js_error option"
  base64_out :: "js_error + jsstring"
  api_out :: "js_error + message"
  elapsed_ms :: nat
  write_out :: "js_error option"
  result_clock :: jsstring
  history_write_ok :: bool

text \<open>The state the claims are about: the history file and the text files written.\<close>

record world =
  history :: history_file
  written :: "(jsstring \<times> jsstring) list"

definition UPLOADS_DIR :: "env \<Rightarrow> jsstring" where
  "UPLOADS_DIR e = path_join (dirname e) (js ''uploads'')"

definition OUTPUT_DIR :: "env \<Rightarrow> jsstring" where
  "OUTPUT_DIR e = path_join (dirname e) (js ''__output__'')"

definition MODEL :: jsstring where
  "MODEL = js ''claude-opus-4-5-20251101''"

record build_result =
  sessionId :: jsstring
  outputDir :: jsstring
  prototypeUrl :: jsstring
  thumbnailUrl :: jsstring
  tokens :: "nat \<times> nat"
  cost :: rat
  costs :: cost_breakdown
  duration :: rat
  files :: "jsstring list"
  timestamp :: jsstring
  model :: jsstring

text \<open>
  \<^verbatim>\<open>message.content[0].text\<close> and the \<^verbatim>\<open>replace\<close> called on it: a \<^verbatim>\<open>TypeError\<close> when the
  response has no block, or a first block without text.
\<close>

definition first_text :: "message \<Rightarrow> js_error + jsstring" where
  "first_text m =
     (case content m of
        [] \<Rightarrow> Inl (Error (js ''Cannot read properties of undefined (reading 'text')''))
      | OtherBlock # _ \<Rightarrow>
          Inl (Error (js ''Cannot read properties of undefined (reading 'replace')''))
      | TextBlock t # _ \<Rightarrow> Inr t)"

definition buildPrototypeWithClaudeAgent ::
    "env \<Rightarrow> jsstring \<Rightarrow> jsstring \<Rightarrow> jsstring \<Rightarrow> world \<Rightarrow> (js_error + build_result) \<times> world" where
  "buildPrototypeWithClaudeAgent e imagePath customPrompt sid w =
     (let dir = path_join (OUTPUT_DIR e) (js ''prototype-'' @ dashed (build_clock e)) in
      case mkdir_out e of Some err \<Rightarrow> (Inl err, w) | None \<Rightarrow>
      case compress_out e of Some err \<Rightarrow> (Inl err, w) | None \<Rightarrow>
      case base64_out e of Inl err \<Rightarrow> (Inl err, w) | Inr imageBase64 \<Rightarrow>
      case api_out e of Inl err \<Rightarrow> (Inl err, w) | Inr msg \<Rightarrow>
      let duration_text = toFixed 2 (fl (of_nat (elapsed_ms e) / 1000)) in
      case first_text msg of Inl err \<Rightarrow> (Inl err, w) | Inr text \<Rightarrow>
      let htmlContent = clean_html text;
          indexPath = path_join dir (js ''index.html'')
      in
      case write_out e of Some err \<Rightarrow> (Inl err, w) | None \<Rightarrow>
      let w' = w\<lparr> written := (indexPath, htmlContent) # written w \<rparr>;
          cs = calculateCost (input_tokens msg) (output_tokens msg)
      in (Inr \<lparr> sessionId = sid,
                 outputDir = dir,
                 prototypeUrl = js ''/demos/'' @ last_segment dir @ js ''/index.html'',
                 thumbnailUrl = js ''/demos/'' @ last_segment dir @ js ''/thumbnail.jpg'',
                 tokens = (input_tokens msg, output_tokens msg),
                 cost = parseFloat (totalCost cs),
                 costs = cs,
                 duration = parseFloat duration_text,
                 files = [js ''index.html''],
                 timestamp = result_clock e,
                 model = MODEL \<rparr>, w'))"

subsection \<open>The upload route (lines 424 to 511)\<close>

record request =
  req_file :: "uploaded_file option"
  prompt :: "jsstring option"

record response =
  status :: nat
  body :: json

definition tokens_json :: "nat \<times> nat \<Rightarrow> json" where
  "tokens_json t = JObj [(''input'', JNum (of_nat (fst t))), (''output'', JNum (of_nat (snd t)))]"

definition costs_json :: "cost_breakdown \<Rightarrow> json" where
  "costs_json c =
     JObj [(''inputCost'', JStr (js (inputCost c))),
           (''outputCost'', JStr (js (outputCost c))),
           (''totalCost'', JStr (js (totalCost c)))]"

definition historyEntry :: "jsstring \<Rightarrow> uploaded_file \<Rightarrow> jsstring \<Rightarrow> build_result \<Rightarrow> json" where
  "historyEntry sid f customPrompt result =
     JObj [(''sessionId'', JStr sid),
           (''timestamp'', JStr (timestamp result)),
           (''originalFilename'', JStr (filename f)),
           (''customPrompt'', JStr customPrompt),
           (''outputDir'', JStr (outputDir result)),
           (''prototypeUrl'', JStr (prototypeUrl result)),
           (''thumbnailUrl'', JStr (thumbnailUrl result)),
           (''tokens'', tokens_json (tokens result)),
           (''cost'', JNum (cost result)),
           (''costs'', costs_json (costs result)),
           (''duration'', JNum (duration result)),
           (''model'', JStr (model result)),
           (''files'', JArr (map JStr (files result))),
           (''success'', JBool True)]"

definition success_response :: "jsstring \<Rightarrow> build_result \<Rightarrow> response" where
  "success_response sid result =
     \<lparr> status = 200,
       body = JObj [(''success'', JBool True),
                    (''sessionId'', JStr sid),
                    (''message'', JStr (js ''Prototype generated successfully!'')),
                    (''demoUrl'', JStr (prototypeUrl result)),
                    (''thumbnailUrl'', JStr (thumbnailUrl result)),
                    (''outputDir'', JStr (outputDir result)),
                    (''tokens'', tokens_json (tokens result)),
                    (''cost'', JNum (cost result)),
                    (''costs'', costs_json (costs result)),
                    (''duration'', JNum (duration result)),
                    (''files'', JArr (map JStr (files result)))] \<rparr>"

text \<open>The response of the \<^verbatim>\<open>catch\<close> block (lines 498 to 510).\<close>

definition error_response :: "jsstring \<Rightarrow> js_error \<Rightarrow> response" where
  "error_response sid err =
     \<lparr> status = 500,
       body = JObj [(''success'', JBool False),
                    (''sessionId'', JStr sid),
                    (''error'', JStr (or_else (Some (message err))
                                   (js ''Failed to generate prototype'')))] \<rparr>"

text \<open>The response of the guard on \<^verbatim>\<open>req.file\<close> (lines 433 to 439).\<close>

definition no_file_response :: response where
  "no_file_response =
     \<lparr> status = 400,
       body = JObj [(''success'', JBool False),
                    (''error'', JStr (js ''No file uploaded''))] \<rparr>"

definition upload_handler :: "env \<Rightarrow> request \<Rightarrow> world \<Rightarrow> response \<times> world" where
  "upload_handler e req w =
     (let sid = uuid e in
      case req_file req of
        None \<Rightarrow> (no_file_response, w)
      | Some f \<Rightarrow>
          let customPrompt = or_else (prompt req) [];
              imagePath = path_join (UPLOADS_DIR e) (filename f)
          in
          case buildPrototypeWithClaudeAgent e imagePath customPrompt sid w of
            (Inl err, w1) \<Rightarrow> (error_response sid err, w1)
          | (Inr result, w1) \<Rightarrow>
              (case addToHistory (history_write_ok e)
                      (historyEntry sid f customPrompt result) (history w1) of
                 Inl err \<Rightarrow> (error_response sid err, w1)
               | Inr h \<Rightarrow> (success_response sid result, w1\<lparr> history := h \<rparr>)))"

subsection \<open>Example inputs\<close>

text \<open>A client file, the request multer makes of it, and two environments: one where every
  call succeeds, one where the hosted model refuses the key.\<close>

definition demo_client_file :: client_file where
  "demo_client_file =
     \<lparr> originalname = js ''sketch.png'', mimetype = js ''image/png'', size_bytes = 204800 \<rparr>"

definition demo_clock :: jsstring where
  "demo_clock = js ''2024-01-15T10:30:00.000Z''"

definition demo_file :: uploaded_file where
  "demo_file =
     \<lparr> originalname = js ''sketch.png'', mimetype = js ''image/png'', size_bytes = 204800,
       filename = js ''whiteboard-2024-01-15T10-30-00-000Z.jpg'' \<rparr>"

definition demo_request :: request where
  "demo_request = \<lparr> req_file = Some demo_file, prompt = Some (js ''Make it dark mode'') \<rparr>"

definition demo_env :: env where
  "demo_env =
     \<lparr> dirname = js ''/srv/app'',
       uuid = js ''1b9d6bcd-bbfd-4b2d-9b5d-ab8dfbbd4bed'',
       build_clock = js ''2024-01-15T10:30:01.000Z'',
       mkdir_out = None,
       compress_out = None,
       base64_out = Inr (js ''/9j/4AAQSkZJRg==''),
       api_out = Inr \<lparr> content = [TextBlock (js ''<p>hi</p>'')],
                       input_tokens = 1523, output_tokens = 2847 \<rparr>,
       elapsed_ms = 12450,
       write_out = None,
       result_clock = js ''2024-01-15T10:30:14.000Z'',
       history_write_ok = True \<rparr>"

definition demo_env_refused :: env where
  "demo_env_refused = demo_env \<lparr> api_out := Inl (Error (js ''invalid x-api-key'')) \<rparr>"

definition demo_world :: world where
  "demo_world = \<lparr> history = Missing, written = [] \<rparr>"

section \<open>Properties of the response cleaning\<close>

subsection \<open>No fence survives\<close>

lemma prefix_FENCE_Cons:
  "prefix FENCE (c # r) \<longleftrightarrow> c = BACKTICK \<and> prefix [BACKTICK, BACKTICK] r"
  by (auto simp: FENCE_def)

lemma replace_all_FENCE_keeps_two:
  "\<not> prefix [BACKTICK, BACKTICK] r \<Longrightarrow> \<not> prefix [BACKTICK, BACKTICK] (replace_all FENCE r)"
proof (cases r)
  case Nil
  then show ?thesis by simp
next
  case (Cons x r')
  assume np: "\<not> prefix [BACKTICK, BACKTICK] r"
  show ?thesis
  proof (cases "x = BACKTICK")
    case False
    with Cons show ?thesis by (simp add: FENCE_def)
  next
    case True
    with np Cons have r': "\<not> prefix [BACKTICK] r'" by simp
    then show ?thesis using Cons True
      by (cases r') (auto simp: FENCE_def)
  qed
qed

lemma no_fence_after_replace_all: "\<not> sublist FENCE (replace_all FENCE s)"
proof (induction FENCE s rule: replace_all.induct)
  case 1
  show ?case by (simp add: FENCE_def)
next
  case (2 c r)
  show ?case
  proof (cases "prefix FENCE (c # r)")
    case True
    with 2 show ?thesis by (simp add: FENCE_def)
  next
    case False
    then have eq: "replace_all FENCE (c # r) = c # replace_all FENCE r" by simp
    from False 2 have ih: "\<not> sublist FENCE (replace_all FENCE r)" by simp
    from False have "\<not> prefix FENCE (c # replace_all FENCE r)"
      using replace_all_FENCE_keeps_two[of r] by (auto simp: prefix_FENCE_Cons)
    with ih eq show ?thesis by (simp add: sublist_Cons_right)
  qed
qed

lemma sublist_trim: "sublist (trim s) s"
proof -
  have "sublist (rev (trim s)) (rev (dropWhile is_white_space s))"
    unfolding trim_def by simp
  then have "sublist (trim s) (dropWhile is_white_space s)"
    by (simp only: sublist_rev)
  moreover have "sublist (dropWhile is_white_space s) s" by simp
  ultimately show ?thesis by (rule sublist_order.order_trans)
qed

lemma sublist_FENCE_append:
  assumes "BACKTICK \<notin> set d" "d \<noteq> []" "last d \<noteq> BACKTICK" "sublist FENCE (d @ h)"
  shows "sublist FENCE h"
  using assms
proof (induction d)
  case Nil then show ?case by simp
next
  case (Cons a d)
  then show ?case
    by (cases d) (auto simp: sublist_Cons_right FENCE_def)
qed

lemma strip_fences_no_fence: "\<not> sublist FENCE (strip_fences t)"
proof
  assume "sublist FENCE (strip_fences t)"
  then have "sublist FENCE (replace_all FENCE (replace_all FENCE_HTML t))"
    unfolding strip_fences_def using sublist_trim sublist_order.order_trans by blast
  then show False using no_fence_after_replace_all by blast
qed

lemma clean_html_cases:
  "clean_html t = strip_fences t \<or> clean_html t = DOCTYPE_LINE @ strip_fences t"
  by (simp add: clean_html_def ensure_doctype_def)

lemma DOCTYPE_LINE_no_backtick:
  "BACKTICK \<notin> set DOCTYPE_LINE \<and> DOCTYPE_LINE \<noteq> [] \<and> last DOCTYPE_LINE \<noteq> BACKTICK"
  by (simp add: DOCTYPE_LINE_def js_def BACKTICK_def NL_def)

text \<open>
  Claim C10. The cleaning removes every occurrence of the two markers, wherever it stands
  in the response and not only a fence around it: whatever the response, the text written
  to the prototype file contains neither three backticks in a row nor the tagged marker.
\<close>

theorem clean_html_removes_every_fence:
  "\<not> sublist FENCE (clean_html t) \<and> \<not> sublist FENCE_HTML (clean_html t)"
proof -
  have nf: "\<not> sublist FENCE (clean_html t)"
  proof
    assume a: "sublist FENCE (clean_html t)"
    from clean_html_cases[of t] show False
    proof
      assume "clean_html t = strip_fences t"
      with a strip_fences_no_fence show False by simp
    next
      assume "clean_html t = DOCTYPE_LINE @ strip_fences t"
      with a have s: "sublist FENCE (DOCTYPE_LINE @ strip_fences t)" by simp
      from DOCTYPE_LINE_no_backtick have d: "BACKTICK \<notin> set DOCTYPE_LINE"
          "DOCTYPE_LINE \<noteq> []" "last DOCTYPE_LINE \<noteq> BACKTICK"
        by simp_all
      from sublist_FENCE_append[OF d s] strip_fences_no_fence show False by simp
    qed
  qed
  have "sublist FENCE FENCE_HTML" by (simp add: FENCE_HTML_def)
  with nf have "\<not> sublist FENCE_HTML (clean_html t)"
    using sublist_order.order_trans by blast
  with nf show ?thesis ..
qed

lemma clean_html_interior_fences_example:
  "clean_html (js ''<p>a</p>```js'' @ [NL] @ js ''let x = 1;'' @ [NL] @ js ''```<p>b</p>'')
     = DOCTYPE_LINE @ js ''<p>a</p>js'' @ [NL] @ js ''let x = 1;'' @ [NL] @ js ''<p>b</p>''"
  by (simp add: clean_html_def ensure_doctype_def strip_fences_def FENCE_HTML_def FENCE_def
      js_def NL_def BACKTICK_def trim_def is_white_space_def DOCTYPE_LINE_def)

subsection \<open>A bare fence and a tagged fence\<close>

lemma prefix_FENCE_before_NL:
  "prefix FENCE (u @ NL # rest) \<Longrightarrow> prefix FENCE u"
proof (cases u)
  case Nil
  assume "prefix FENCE (u @ NL # rest)"
  with Nil show ?thesis by (simp add: FENCE_def NL_def BACKTICK_def)
next
  case (Cons a u1)
  assume p: "prefix FENCE (u @ NL # rest)"
  show ?thesis
  proof (cases u1)
    case Nil
    with p Cons show ?thesis by (simp add: FENCE_def NL_def BACKTICK_def)
  next
    case (Cons b u2)
    with p \<open>u = a # u1\<close> show ?thesis
      by (cases u2) (simp_all add: FENCE_def NL_def BACKTICK_def)
  qed
qed

lemma replace_all_skips_clean:
  assumes "\<not> sublist FENCE u"
  shows "replace_all (FENCE @ q) (u @ NL # rest) = u @ replace_all (FENCE @ q) (NL # rest)"
  using assms
proof (induction u)
  case Nil
  show ?case by simp
next
  case (Cons c u)
  from Cons.prems have nu: "\<not> sublist FENCE u" and np: "\<not> prefix FENCE (c # u)"
    by (auto simp: sublist_Cons_right)
  have "\<not> prefix (FENCE @ q) (c # u @ NL # rest)"
  proof
    assume "prefix (FENCE @ q) (c # u @ NL # rest)"
    then have "prefix FENCE ((c # u) @ NL # rest)" by (simp add: append_prefixD)
    then have "prefix FENCE (c # u)" by (rule prefix_FENCE_before_NL)
    with np show False ..
  qed
  with Cons.IH[OF nu] show ?case by simp
qed

lemma replace_all_NL:
  "replace_all (FENCE @ q) (NL # rest) = NL # replace_all (FENCE @ q) rest"
  by (simp add: FENCE_def NL_def BACKTICK_def)

lemma strip_fenced_html:
  assumes "\<not> sublist FENCE t"
  shows "strip_fences (fenced_html t) = trim (t @ [NL])"
proof -
  have h1: "replace_all FENCE_HTML (fenced_html t) = replace_all FENCE_HTML (t @ NL # FENCE)"
    by (simp add: fenced_html_def FENCE_HTML_def FENCE_def js_def)
  have h2: "replace_all FENCE_HTML (t @ NL # FENCE) = t @ NL # FENCE"
    unfolding FENCE_HTML_def replace_all_skips_clean[OF assms] replace_all_NL
    by (simp add: FENCE_def js_def)
  have h3: "replace_all FENCE (t @ NL # FENCE) = t @ [NL]"
    using replace_all_skips_clean[OF assms, of "[]" FENCE] replace_all_NL[of "[]" FENCE]
    by (simp add: FENCE_def)
  show ?thesis by (simp only: strip_fences_def h1 h2 h3)
qed

lemma strip_fenced_generic:
  assumes "\<not> sublist FENCE t"
  shows "strip_fences (fenced_generic t) = trim (t @ [NL])"
proof -
  have h1: "replace_all FENCE_HTML (fenced_generic t) = FENCE @ replace_all FENCE_HTML (NL # t @ NL # FENCE)"
    by (simp add: fenced_generic_def FENCE_HTML_def FENCE_def js_def NL_def BACKTICK_def)
  have h2: "replace_all FENCE_HTML (NL # t @ NL # FENCE) = NL # t @ NL # FENCE"
    unfolding FENCE_HTML_def replace_all_NL replace_all_skips_clean[OF assms]
    by (simp add: FENCE_def js_def)
  have h3: "replace_all FENCE (FENCE @ NL # t @ NL # FENCE) = replace_all FENCE (t @ NL # FENCE)"
    by (simp add: FENCE_def)
  have h4: "replace_all FENCE (t @ NL # FENCE) = t @ [NL]"
    using replace_all_skips_clean[OF assms, of "[]" FENCE] replace_all_NL[of "[]" FENCE]
    by (simp add: FENCE_def)
  show ?thesis by (simp only: strip_fences_def h1 h2 h3 h4)
qed

text \<open>
  Claim C7. For every body that contains no fence marker of its own, the response that
  fences it as a bare code block and the response that fences it as a block tagged
  \<open>html\<close> are cleaned to the same text.
\<close>

theorem fenced_generic_html_same:
  assumes "\<not> sublist FENCE t"
  shows "clean_html (fenced_generic t) = clean_html (fenced_html t)"
  by (simp add: clean_html_def strip_fenced_generic[OF assms] strip_fenced_html[OF assms])

theorem fenced_generic_html_same_witness:
  "\<not> sublist FENCE (js ''<p>hi</p>'')
   \<and> clean_html (fenced_generic (js ''<p>hi</p>'')) = clean_html (fenced_html (js ''<p>hi</p>''))"
proof -
  have h: "\<not> sublist FENCE (js ''<p>hi</p>'')"
    by (simp add: sublist_Cons_right FENCE_def js_def BACKTICK_def)
  from h fenced_generic_html_same[OF h] show ?thesis by simp
qed

lemma fenced_generic_example:
  "clean_html (fenced_generic (js ''<p>hi</p>'')) = DOCTYPE_LINE @ js ''<p>hi</p>''"
  by (simp add: clean_html_def ensure_doctype_def strip_fences_def fenced_generic_def
      FENCE_HTML_def FENCE_def js_def NL_def BACKTICK_def trim_def is_white_space_def
      DOCTYPE_LINE_def)

subsection \<open>The document type line\<close>

text \<open>
  Claim C3 says that the cleaned text always begins with the document type declaration.
  The guard of line 346 also accepts a text that begins with \<^verbatim>\<open><html\<close>, and leaves it
  as it is.
\<close>

theorem clean_html_html_root_counterexample:
  "clean_html (js ''<html><body>hi</body></html>'') = js ''<html><body>hi</body></html>''
   \<and> \<not> prefix (js ''<!DOCTYPE'') (clean_html (js ''<html><body>hi</body></html>''))"
  by (simp add: clean_html_def ensure_doctype_def strip_fences_def FENCE_HTML_def FENCE_def
      js_def NL_def BACKTICK_def trim_def is_white_space_def DOCTYPE_LINE_def)

text \<open>
  Claim C3, amended. For every text response, the cleaned text begins with
  \<^verbatim>\<open><!DOCTYPE\<close> or with \<^verbatim>\<open><html\<close>: where the stripped response begins with neither,
  the line \<^verbatim>\<open><!DOCTYPE html>\<close> is put in front of it; otherwise it is written as stripped.
\<close>

theorem clean_html_begins_doctype_or_html:
  "(prefix (js ''<!DOCTYPE'') (clean_html t) \<or> prefix (js ''<html'') (clean_html t))
   \<and> clean_html t =
       (if prefix (js ''<!DOCTYPE'') (strip_fences t) \<or> prefix (js ''<html'') (strip_fences t)
        then strip_fences t else DOCTYPE_LINE @ strip_fences t)"
  by (simp add: clean_html_def ensure_doctype_def DOCTYPE_LINE_def js_def)

lemma clean_html_prepends_example:
  "clean_html (js ''<div>hi</div>'') = js ''<!DOCTYPE html>'' @ [NL] @ js ''<div>hi</div>''"
  by (simp add: clean_html_def ensure_doctype_def strip_fences_def FENCE_HTML_def FENCE_def
      js_def NL_def BACKTICK_def trim_def is_white_space_def DOCTYPE_LINE_def)

section \<open>Properties of the cost calculation\<close>

subsection \<open>Rounding to a double\<close>

lemma round_half_even_error: "\<bar>of_int (round_half_even s) - s\<bar> \<le> 1 / 2"
proof -
  have "of_int \<lfloor>s\<rfloor> \<le> s" "s < of_int \<lfloor>s\<rfloor> + 1" by linarith+
  then show ?thesis
    by (auto simp: round_half_even_def Let_def)
qed

lemma binade_le:
  assumes "0 < x"
  shows "2 powi binade x \<le> x"
proof -
  obtain p q where pq: "quotient_of x = (p, q)" by (cases "quotient_of x")
  then have q: "0 < q" and x: "x = of_int p / of_int q"
    by (simp_all add: quotient_of_denom_pos quotient_of_div)
  with assms have p: "0 < p" by (simp add: zero_less_divide_iff)
  have bp: "1 \<le> bitlen p" and bq: "1 \<le> bitlen q"
    using p q by (simp_all add: bitlen_alt_def)
  from bitlen_bounds[OF p] have lo: "(2::rat) ^ nat (bitlen p - 1) \<le> of_int p"
    by (metis of_int_le_iff of_int_numeral of_int_power)
  from bitlen_bounds[OF q] have hi: "of_int q \<le> (2::rat) ^ nat (bitlen q)"
    by (metis less_imp_le of_int_le_iff of_int_numeral of_int_power)
  have "bitlen p - bitlen q - 1 = (bitlen p - 1) - bitlen q" by simp
  then have "(2::rat) powi (bitlen p - bitlen q - 1) = 2 powi ((bitlen p - 1) - bitlen q)"
    by (rule arg_cong)
  also have "\<dots> = 2 powi (bitlen p - 1) / 2 powi (bitlen q)"
    by (rule power_int_diff) simp
  also have "\<dots> = 2 ^ nat (bitlen p - 1) / 2 ^ nat (bitlen q)"
    using bp bq by (simp add: power_int_def)
  also have "\<dots> \<le> of_int p / of_int q"
    using lo hi p q by (intro frac_le) simp_all
  finally have low: "(2::rat) powi (bitlen p - bitlen q - 1) \<le> x" using x by simp
  show ?thesis
    using low by (simp add: binade_def pq Let_def)
qed

lemma binade_gt:
  assumes "0 < x"
  shows "x < 2 powi (binade x + 1)"
proof -
  obtain p q where pq: "quotient_of x = (p, q)" by (cases "quotient_of x")
  then have q: "0 < q" and x: "x = of_int p / of_int q"
    by (simp_all add: quotient_of_denom_pos quotient_of_div)
  with assms have p: "0 < p" by (simp add: zero_less_divide_iff)
  have bp: "1 \<le> bitlen p" and bq: "1 \<le> bitlen q"
    using p q by (simp_all add: bitlen_alt_def)
  from bitlen_bounds[OF p] have hi: "of_int p < (2::rat) ^ nat (bitlen p)"
    by (metis of_int_less_iff of_int_numeral of_int_power)
  from bitlen_bounds[OF q] have lo: "(2::rat) ^ nat (bitlen q - 1) \<le> of_int q"
    by (metis of_int_le_iff of_int_numeral of_int_power)
  have "of_int p / of_int q < 2 ^ nat (bitlen p) / (2::rat) ^ nat (bitlen q - 1)"
    using hi lo p q by (intro frac_less) simp_all
  also have "\<dots> = 2 powi (bitlen p) / 2 powi (bitlen q - 1)"
    using bp bq by (simp add: power_int_def)
  also have "\<dots> = 2 powi (bitlen p - (bitlen q - 1))"
    by (rule power_int_diff[symmetric]) simp
  also have "bitlen p - (bitlen q - 1) = bitlen p - bitlen q + 1" by simp
  finally have up: "x < 2 powi (bitlen p - bitlen q + 1)" using x by simp
  show ?thesis
    using up by (auto simp: binade_def pq Let_def not_le)
qed

text \<open>Three known doubles: 0.1, the sum 0.1 + 0.2, and 1.005 printed with two decimals.\<close>

lemma fl_tenth_example: "fl (1 / 10) = 3602879701896397 / 2 ^ 55"
  by code_simp

lemma fl_sum_example: "fl (fl (1 / 10) + fl (2 / 10)) = 1351079888211149 / 2 ^ 52"
  by code_simp

lemma toFixed_example: "toFixed 2 (fl (1005 / 1000)) = ''1.00''"
  by code_simp

lemma fl_error:
  assumes "0 < x"
  shows "\<bar>fl x - x\<bar> \<le> x / 2 ^ 53"
proof -
  define e where "e = binade x - 52"
  define P :: rat where "P = 2 powi e"
  have P: "0 < P" by (simp add: P_def zero_less_power_int)
  have flx: "fl x = of_int (round_half_even (x / P)) * P"
    using assms by (simp add: fl_def Let_def e_def P_def)
  have "fl x - x = (of_int (round_half_even (x / P)) - x / P) * P"
    using P by (simp add: flx algebra_simps)
  then have "\<bar>fl x - x\<bar> = \<bar>of_int (round_half_even (x / P)) - x / P\<bar> * P"
    using P by (simp add: abs_mult)
  also have "\<dots> \<le> (1 / 2) * P"
    using round_half_even_error[of "x / P"] P by (intro mult_right_mono) simp_all
  also have "\<dots> = 2 powi binade x / 2 ^ 53"
    by (simp add: P_def e_def power_int_diff)
  also have "\<dots> \<le> x / 2 ^ 53"
    using binade_le[OF assms] by (simp add: divide_right_mono)
  finally show ?thesis .
qed

lemma fl_nonneg:
  assumes "0 \<le> x"
  shows "0 \<le> fl x"
proof (cases "x = 0")
  case True
  then show ?thesis by (simp add: fl_def)
next
  case False
  with assms have x: "0 < x" by simp
  have "x / 2 ^ 53 \<le> x" using x by (simp add: field_simps)
  with fl_error[OF x] show ?thesis by linarith
qed

lemma micros_input_exact:
  assumes "a < 2 ^ 46"
  shows "round (fl (fl (of_nat a / 1000000) * 15) * 10 ^ 6) = 15 * int a"
proof (cases "a = 0")
  case True
  then show ?thesis by (simp add: fl_def)
next
  case False
  define y :: rat where "y = of_nat a / 1000000"
  define x1 where "x1 = fl y"
  define x2 where "x2 = fl (x1 * 15)"
  have y: "0 < y" using False by (simp add: y_def)
  have e1: "\<bar>x1 - y\<bar> \<le> y / 2 ^ 53" unfolding x1_def by (rule fl_error[OF y])
  have "y / 2 ^ 53 \<le> y / 2" using y by (simp add: field_simps)
  with e1 y have x1: "0 < x1" "x1 \<le> 2 * y" by linarith+
  have e2: "\<bar>x2 - x1 * 15\<bar> \<le> x1 * 15 / 2 ^ 53"
    unfolding x2_def using x1 by (intro fl_error) simp
  have "\<bar>x2 - 15 * y\<bar> = \<bar>(x2 - x1 * 15) + 15 * (x1 - y)\<bar>"
    by (simp add: algebra_simps)
  also have "\<dots> \<le> \<bar>x2 - x1 * 15\<bar> + \<bar>15 * (x1 - y)\<bar>" by (rule abs_triangle_ineq)
  also have "\<dots> = \<bar>x2 - x1 * 15\<bar> + 15 * \<bar>x1 - y\<bar>" by (simp only: abs_mult abs_numeral)
  also have "\<dots> \<le> x1 * 15 / 2 ^ 53 + 15 * (y / 2 ^ 53)"
    using e1 e2 by (intro add_mono mult_left_mono) simp_all
  also have "\<dots> \<le> 45 * y / 2 ^ 53" using x1 by (simp add: field_simps)
  finally have e3: "\<bar>x2 - 15 * y\<bar> \<le> 45 * y / 2 ^ 53" .
  have a: "(of_nat a :: rat) < 2 ^ 46"
    using assms by (metis of_nat_less_iff of_nat_numeral of_nat_power)
  have h: "x2 * 10 ^ 6 - 15 * of_nat a = (x2 - 15 * y) * 10 ^ 6"
    by (simp add: y_def algebra_simps)
  have "\<bar>x2 * 10 ^ 6 - 15 * of_nat a\<bar> = \<bar>x2 - 15 * y\<bar> * 10 ^ 6"
    unfolding h abs_mult by simp
  also have "\<dots> \<le> 45 * y / 2 ^ 53 * 10 ^ 6" using e3 by (intro mult_right_mono) simp_all
  also have "\<dots> = 45 * of_nat a / 2 ^ 53" by (simp add: y_def)
  also have "\<dots> < 1 / 2" using a by simp
  finally have close: "\<bar>x2 * 10 ^ 6 - of_int (15 * int a)\<bar> < 1 / 2" by simp
  from close have c: "x2 * 10 ^ 6 - of_int (15 * int a) < 1 / 2"
      "- (x2 * 10 ^ 6 - of_int (15 * int a)) < 1 / 2"
    unfolding abs_less_iff by blast+
  have "round (x2 * 10 ^ 6) = 15 * int a"
  proof (rule round_unique)
    show "x2 * 10 ^ 6 - 1 / 2 < of_int (15 * int a)" using c by linarith
    show "of_int (15 * int a) \<le> x2 * 10 ^ 6 + 1 / 2" using c by linarith
  qed
  then show ?thesis by (simp add: x2_def x1_def y_def)
qed

subsection \<open>Reading back what \<open>toFixed\<close> prints\<close>

text \<open>The defining equation of \<open>digits\<close> is applied by hand, one step at a time.\<close>

declare digits.simps [simp del]

lemma digit_char:
  assumes "0 \<le> d" "d < 10"
  shows "digit_value (''0123456789'' ! nat d) = d \<and> ''0123456789'' ! nat d \<noteq> CHR ''.''"
proof -
  from assms have "d = 0 \<or> d = 1 \<or> d = 2 \<or> d = 3 \<or> d = 4 \<or> d = 5 \<or> d = 6 \<or> d = 7
      \<or> d = 8 \<or> d = 9"
    by presburger
  then show ?thesis
    by (elim disjE) (simp_all add: digit_value_def)
qed

lemma digits_value_snoc: "digits_value (xs @ [c]) = 10 * digits_value xs + digit_value c"
  by (simp add: digits_value_def)

lemma digits_value_append:
  "digits_value (xs @ ys) = digits_value xs * 10 ^ length ys + digits_value ys"
proof (induction ys rule: rev_induct)
  case Nil
  show ?case by (simp add: digits_value_def)
next
  case (snoc y ys)
  have "digits_value (xs @ ys @ [y]) = digits_value ((xs @ ys) @ [y])" by simp
  also have "\<dots> = 10 * digits_value (xs @ ys) + digit_value y" by (rule digits_value_snoc)
  finally show ?case by (simp add: snoc.IH digits_value_snoc algebra_simps)
qed

lemma digits_value_zeros: "digits_value (replicate k (CHR ''0'')) = 0"
proof (induction k)
  case 0
  show ?case by (simp add: digits_value_def)
next
  case (Suc k)
  have "replicate (Suc k) (CHR ''0'') = replicate k (CHR ''0'') @ [CHR ''0'']"
    by (simp add: replicate_append_same)
  then show ?case by (simp add: digits_value_snoc Suc.IH digit_value_def del: replicate_Suc)
qed

lemma digits_props:
  "0 \<le> n \<Longrightarrow> digits_value (digits n) = n \<and> CHR ''.'' \<notin> set (digits n)"
proof (induction n rule: digits.induct)
  case (1 n)
  show ?case
  proof (cases "n < 10")
    case True
    with 1(2) digit_char[of n] show ?thesis
      by (subst (1 2) digits.simps) (auto simp: digits_value_def)
  next
    case False
    then have d: "0 \<le> n div 10" by simp
    have m: "0 \<le> n mod 10" "n mod 10 < 10" by simp_all
    from 1(1)[OF False d] digit_char[OF m] show ?thesis
      by (subst (1 2) digits.simps) (auto simp: False digits_value_snoc)
  qed
qed

lemma decimal_value_toFixed_abs:
  assumes "0 \<le> x"
  shows "decimal_value (toFixed_abs f x) = of_int (round (x * 10 ^ f)) / 10 ^ f"
proof -
  define n where "n = round (x * 10 ^ f)"
  have n: "0 \<le> n" unfolding n_def using assms by (simp add: round_def)
  define m0 where "m0 = digits n"
  define m where "m = (if length m0 \<le> f then replicate (f + 1 - length m0) (CHR ''0'') @ m0 else m0)"
  define ip where "ip = take (length m - f) m"
  define fp where "fp = drop (length m - f) m"
  have m0: "digits_value m0 = n" "CHR ''.'' \<notin> set m0"
    using digits_props[OF n] by (simp_all add: m0_def)
  have mv: "digits_value m = n"
    by (simp add: m_def digits_value_append digits_value_zeros m0)
  have mdot: "CHR ''.'' \<notin> set m" using m0 by (auto simp: m_def)
  have mlen: "f \<le> length m" by (simp add: m_def)
  have fplen: "length fp = f" using mlen by (simp add: fp_def)
  have split: "ip @ fp = m" by (simp add: ip_def fp_def)
  have ipdot: "\<And>c. c \<in> set ip \<Longrightarrow> c \<noteq> CHR ''.''"
    using mdot by (auto simp: ip_def dest: in_set_takeD)
  have tf: "toFixed_abs f x = ip @ CHR ''.'' # fp"
    by (simp only: toFixed_abs_def Let_def ip_def fp_def m_def m0_def n_def append_Cons append_Nil)
  have tw: "takeWhile (\<lambda>c. c \<noteq> CHR ''.'') (ip @ CHR ''.'' # fp) = ip"
    using ipdot by (simp add: takeWhile_append2)
  have dv: "decimal_value (ip @ CHR ''.'' # fp) = of_int (digits_value ip) + of_int (digits_value fp) / 10 ^ f"
    by (simp add: decimal_value_def Let_def tw fplen)
  have "n = digits_value ip * 10 ^ f + digits_value fp"
    using digits_value_append[of ip fp] by (simp add: split mv fplen)
  then have "(of_int n :: rat) = of_int (digits_value ip) * 10 ^ f + of_int (digits_value fp)"
    by simp
  then show ?thesis
    by (simp add: tf dv n_def[symmetric] field_simps)
qed

lemma inputCost_value:
  assumes "a < 2 ^ 46"
  shows "decimal_value (inputCost (calculateCost a c)) = 15 * of_nat a / 10 ^ 6"
proof -
  define x where "x = fl (fl (of_nat a / 1000000) * 15)"
  have x: "0 \<le> x" unfolding x_def by (intro fl_nonneg mult_nonneg_nonneg) simp_all
  have "inputCost (calculateCost a c) = toFixed_abs 6 x"
    using x by (simp add: calculateCost_def Let_def COST_PER_MILLION_INPUT_def toFixed_def x_def)
  then have "decimal_value (inputCost (calculateCost a c)) = of_int (round (x * 10 ^ 6)) / 10 ^ 6"
    by (simp only: decimal_value_toFixed_abs[OF x])
  also have "round (x * 10 ^ 6) = 15 * int a"
    unfolding x_def by (rule micros_input_exact[OF assms])
  finally show ?thesis by simp
qed

text \<open>
  Claim C6. The input component of the cost is additive in the input token count: the
  input cost of \<open>a + b\<close> tokens is the sum of the input costs of \<open>a\<close> and of \<open>b\<close>
  tokens, as decimal numbers, whatever the output token count. Doubles carry the claim
  as long as the counts stay below \<open>2 ^ 46\<close> (about \<open>7 * 10 ^ 13\<close> tokens): there each
  input cost is printed as exactly 15 millionths per token.
\<close>

theorem calculateCost_input_additive:
  assumes "a + b < 2 ^ 46"
  shows "decimal_value (inputCost (calculateCost (a + b) c)) =
         decimal_value (inputCost (calculateCost a c)) + decimal_value (inputCost (calculateCost b c))"
proof -
  from assms have "a < 2 ^ 46" "b < 2 ^ 46" by simp_all
  then show ?thesis
    by (simp add: inputCost_value[OF assms] inputCost_value add_divide_distrib distrib_left)
qed

theorem calculateCost_input_additive_witness:
  "(1523::nat) + 2000 < 2 ^ 46 \<and>
   decimal_value (inputCost (calculateCost (1523 + 2000) 7)) =
     decimal_value (inputCost (calculateCost 1523 7)) + decimal_value (inputCost (calculateCost 2000 7))"
  using calculateCost_input_additive[of 1523 2000 7] by simp

text \<open>
  The equality is between the decimal numbers that the strings denote. A sum of the
  parsed strings computed in doubles can miss it by the last bit, as 0.3 + 0.6 does.
\<close>

lemma cost_020000: "toFixed 6 (fl (fl (1 / 50) * 15)) = ''0.300000''" by code_simp
lemma cost_040000: "toFixed 6 (fl (fl (1 / 25) * 15)) = ''0.600000''" by code_simp
lemma cost_060000: "toFixed 6 (fl (fl (3 / 50) * 15)) = ''0.900000''" by code_simp

lemma double_sum_of_parsed_costs:
  "fl (parseFloat ''0.300000'' + parseFloat ''0.600000'') \<noteq> parseFloat ''0.900000''"
  by code_simp

lemma parsed_costs_double_sum_example:
  "inputCost (calculateCost 20000 c) = ''0.300000''
   \<and> inputCost (calculateCost 40000 c) = ''0.600000''
   \<and> inputCost (calculateCost 60000 c) = ''0.900000''
   \<and> fl (parseFloat ''0.300000'' + parseFloat ''0.600000'') \<noteq> parseFloat ''0.900000''"
  using double_sum_of_parsed_costs
  by (simp add: calculateCost_def Let_def COST_PER_MILLION_INPUT_def
      cost_020000 cost_040000 cost_060000)

subsection \<open>The three values of the specification\<close>

lemma fl_0: "fl 0 = 0" by (simp add: fl_def)
lemma fl_1: "fl 1 = 1" by code_simp
lemma fl_15: "fl 15 = 15" by code_simp
lemma fl_75: "fl 75 = 75" by code_simp
lemma toFixed_6_0: "toFixed 6 0 = ''0.000000''" by code_simp
lemma toFixed_6_15: "toFixed 6 15 = ''15.000000''" by code_simp
lemma toFixed_6_75: "toFixed 6 75 = ''75.000000''" by code_simp

text \<open>
  Claim C5. The cost of no tokens is three times \<^verbatim>\<open>0.000000\<close>; the cost of one million
  input tokens is the input price, 15, printed with six decimals; the cost of one million
  output tokens is the output price, 75, printed with six decimals.
\<close>

theorem calculateCost_examples:
  "calculateCost 0 0 =
     \<lparr> inputCost = ''0.000000'', outputCost = ''0.000000'', totalCost = ''0.000000'' \<rparr>
   \<and> calculateCost 1000000 0 =
     \<lparr> inputCost = ''15.000000'', outputCost = ''0.000000'', totalCost = ''15.000000'' \<rparr>
   \<and> calculateCost 0 1000000 =
     \<lparr> inputCost = ''0.000000'', outputCost = ''75.000000'', totalCost = ''75.000000'' \<rparr>"
  by (simp add: calculateCost_def COST_PER_MILLION_INPUT_def COST_PER_MILLION_OUTPUT_def
      fl_0 fl_1 fl_15 fl_75 toFixed_6_0 toFixed_6_15 toFixed_6_75)

section \<open>Properties of the history store\<close>

lemma stored_sessions_Parsed:
  "stored_sessions (Parsed (JObj kvs)) =
     (case map_of kvs ''sessions'' of Some (JArr xs) \<Rightarrow> Some xs | _ \<Rightarrow> None)"
  by (simp add: stored_sessions_def loadHistory_def loadHistory_try_def field_def)

lemma stored_sessions_loadHistory:
  "stored_sessions f = Some xs \<longleftrightarrow>
     (\<exists>kvs. loadHistory f = JObj kvs \<and> map_of kvs ''sessions'' = Some (JArr xs))"
  by (auto simp: stored_sessions_def field_def split: json.splits option.splits)

lemma addToHistory_stored:
  assumes "stored_sessions f = Some xs"
  shows "\<exists>f'. addToHistory w s f = Inr f'
           \<and> stored_sessions f' = Some (if w then take 100 (s # xs) else xs)"
proof -
  from assms obtain kvs where l: "loadHistory f = JObj kvs"
      and m: "map_of kvs ''sessions'' = Some (JArr xs)"
    by (auto simp: stored_sessions_loadHistory)
  show ?thesis
  proof (cases w)
    case False
    with l m assms show ?thesis
      by (simp add: addToHistory_def Let_def saveHistory_def)
  next
    case True
    with l m show ?thesis
      by (simp add: addToHistory_def Let_def saveHistory_def stored_sessions_Parsed
          update_conv')
  qed
qed

lemma addToHistory_Inr:
  assumes "addToHistory w s f = Inr h"
  shows "\<exists>xs. stored_sessions f = Some xs
           \<and> stored_sessions h = Some (if w then take 100 (s # xs) else xs)"
proof -
  from assms obtain kvs xs where "loadHistory f = JObj kvs"
      "map_of kvs ''sessions'' = Some (JArr xs)"
    by (auto simp: addToHistory_def Let_def split: json.splits option.splits)
  then have st: "stored_sessions f = Some xs" by (auto simp: stored_sessions_loadHistory)
  from addToHistory_stored[OF st, of w s] assms st show ?thesis by auto
qed

lemma take_append_take: "take n (ys @ take n zs) = take n (ys @ zs)"
  by (simp add: min_def)

lemma appends_stored:
  assumes "stored_sessions f = Some xs"
  shows "\<exists>f'. appends ops f = Inr f'
           \<and> (written_sessions ops = [] \<longrightarrow> f' = f)
           \<and> (written_sessions ops \<noteq> [] \<longrightarrow>
                stored_sessions f' = Some (take 100 (rev (written_sessions ops) @ xs)))"
  using assms
proof (induction ops arbitrary: f xs)
  case Nil
  then show ?case by (simp add: written_sessions_def)
next
  case (Cons op ops)
  obtain s w where op: "op = (s, w)" by (cases op)
  from addToHistory_stored[OF Cons.prems, of w s] obtain f1 where
    a: "addToHistory w s f = Inr f1"
    and s1: "stored_sessions f1 = Some (if w then take 100 (s # xs) else xs)" by blast
  show ?case
  proof (cases w)
    case False
    with a have "f1 = f"
      using Cons.prems
      by (auto simp: addToHistory_def Let_def saveHistory_def split: json.splits option.splits)
    with Cons.IH[OF Cons.prems] a False op show ?thesis
      by (simp add: written_sessions_def)
  next
    case True
    with s1 have s1': "stored_sessions f1 = Some (take 100 (s # xs))" by simp
    from Cons.IH[OF s1'] obtain f' where
      r: "appends ops f1 = Inr f'"
      and e: "written_sessions ops = [] \<longrightarrow> f' = f1"
      and n: "written_sessions ops \<noteq> [] \<longrightarrow>
                stored_sessions f' = Some (take 100 (rev (written_sessions ops) @ take 100 (s # xs)))"
      by blast
    have ws: "written_sessions (op # ops) = s # written_sessions ops"
      using op True by (simp add: written_sessions_def)
    have "stored_sessions f' = Some (take 100 (rev (written_sessions ops) @ s # xs))"
    proof (cases "written_sessions ops = []")
      case True
      with e s1' show ?thesis by simp
    next
      case False
      with n have "stored_sessions f' =
          Some (take 100 (rev (written_sessions ops) @ take 100 (s # xs)))" by blast
      then show ?thesis by (simp only: take_append_take)
    qed
    with r a op ws show ?thesis by simp
  qed
qed

lemma stored_sessions_Missing: "stored_sessions Missing = Some []"
  by (simp add: stored_sessions_def loadHistory_def loadHistory_try_def empty_history_def
      field_def)

text \<open>
  Claim C1. Start from an empty history and run any sequence of appends. The stored list
  never has more than 100 entries: it is the first 100 of the sessions written so far,
  newest first. Right after an append the session just written stands at index 0, the
  sessions stored before follow it in their order, and what is beyond the hundredth place
  is dropped. (An append whose write fails is caught and logged by \<open>saveHistory\<close> and
  leaves the file as it was.)
\<close>

theorem appends_capped_newest_first:
  assumes "stored_sessions f0 = Some []"
  shows "\<exists>f xs. appends ops f0 = Inr f
      \<and> stored_sessions f = Some xs
      \<and> xs = take 100 (rev (written_sessions ops))
      \<and> length xs \<le> 100
      \<and> (\<exists>f'. addToHistory True s f = Inr f' \<and> stored_sessions f' = Some (s # take 99 xs))"
proof -
  from appends_stored[OF assms, of ops] obtain f where
    r: "appends ops f0 = Inr f"
    and e: "written_sessions ops = [] \<longrightarrow> f = f0"
    and n: "written_sessions ops \<noteq> [] \<longrightarrow>
              stored_sessions f = Some (take 100 (rev (written_sessions ops) @ []))"
    by blast
  have st: "stored_sessions f = Some (take 100 (rev (written_sessions ops)))"
    using e n assms by (cases "written_sessions ops = []") simp_all
  from addToHistory_stored[OF st, of True s] r st show ?thesis by auto
qed

theorem appends_capped_newest_first_witness:
  "stored_sessions Missing = Some []
   \<and> (\<exists>f. appends [(JStr (js ''a''), True), (JStr (js ''b''), False), (JStr (js ''c''), True)]
             Missing = Inr f
        \<and> stored_sessions f = Some [JStr (js ''c''), JStr (js ''a'')]
        \<and> (\<exists>f'. addToHistory True (JStr (js ''d'')) f = Inr f'
              \<and> stored_sessions f' = Some [JStr (js ''d''), JStr (js ''c''), JStr (js ''a'')]))"
proof -
  let ?ops = "[(JStr (js ''a''), True), (JStr (js ''b''), False), (JStr (js ''c''), True)]"
  have w: "take 100 (rev (written_sessions ?ops)) = [JStr (js ''c''), JStr (js ''a'')]"
    by (simp add: written_sessions_def)
  from appends_capped_newest_first[OF stored_sessions_Missing, of ?ops "JStr (js ''d'')"]
  show ?thesis
    unfolding w using stored_sessions_Missing by auto
qed


text \<open>Text that parses is returned as parsed, whatever its shape.\<close>

lemma loadHistory_returns_parsed: "loadHistory (Parsed j) = j"
  by (simp add: loadHistory_def loadHistory_try_def)

lemma addToHistory_not_a_history:
  "addToHistory w s (Parsed (JObj [])) =
     Inl (Error (js ''Cannot read properties of undefined (reading 'unshift')''))"
  by (simp add: addToHistory_def loadHistory_def loadHistory_try_def unshift_TypeError_def)

section \<open>Properties of the build and of the upload route\<close>

lemma build_Inl_world:
  "fst (buildPrototypeWithClaudeAgent e img cp sid w) = Inl err \<Longrightarrow>
   snd (buildPrototypeWithClaudeAgent e img cp sid w) = w"
  by (simp add: buildPrototypeWithClaudeAgent_def Let_def split: option.splits sum.splits)

lemma build_history:
  "history (snd (buildPrototypeWithClaudeAgent e img cp sid w)) = history w"
  by (simp add: buildPrototypeWithClaudeAgent_def Let_def split: option.splits sum.splits)

text \<open>
  What a successful build has written to \<^verbatim>\<open>index.html\<close> in its output directory is the
  cleaned text of the first block of the response.
\<close>

lemma build_writes_clean_html:
  assumes "buildPrototypeWithClaudeAgent e img cp sid w = (Inr r, w')"
  shows "\<exists>msg t. api_out e = Inr msg \<and> first_text msg = Inr t
           \<and> written w' = (path_join (outputDir r) (js ''index.html''), clean_html t) # written w"
  using assms
  by (auto simp: buildPrototypeWithClaudeAgent_def Let_def split: option.splits sum.splits)

lemma upload_handler_no_file:
  "req_file req = None \<Longrightarrow> upload_handler e req w = (no_file_response, w)"
  by (simp add: upload_handler_def)

lemma upload_handler_build_failed:
  assumes "req_file req = Some f"
    and "fst (buildPrototypeWithClaudeAgent e (path_join (UPLOADS_DIR e) (filename f))
               (or_else (prompt req) []) (uuid e) w) = Inl err"
  shows "upload_handler e req w = (error_response (uuid e) err, w)"
proof -
  let ?b = "buildPrototypeWithClaudeAgent e (path_join (UPLOADS_DIR e) (filename f))
               (or_else (prompt req) []) (uuid e) w"
  from assms(2) build_Inl_world[OF assms(2)] have "?b = (Inl err, w)"
    by (simp add: prod_eq_iff)
  with assms(1) show ?thesis by (simp add: upload_handler_def Let_def)
qed

lemma upload_handler_build_ok:
  assumes "req_file req = Some f"
    and "buildPrototypeWithClaudeAgent e (path_join (UPLOADS_DIR e) (filename f))
               (or_else (prompt req) []) (uuid e) w = (Inr r, w1)"
  shows "upload_handler e req w =
     (case addToHistory (history_write_ok e)
             (historyEntry (uuid e) f (or_else (prompt req) []) r) (history w) of
        Inl err \<Rightarrow> (error_response (uuid e) err, w1)
      | Inr h \<Rightarrow> (success_response (uuid e) r, w1\<lparr> history := h \<rparr>))"
proof -
  from build_history[of e "path_join (UPLOADS_DIR e) (filename f)" "or_else (prompt req) []" "uuid e" w]
    assms(2) have "history w1 = history w" by simp
  with assms show ?thesis by (simp add: upload_handler_def Let_def)
qed

lemma upload_handler_history_changed:
  assumes "history (snd (upload_handler e req w)) \<noteq> history w"
  shows "\<exists>f r. req_file req = Some f
           \<and> fst (buildPrototypeWithClaudeAgent e (path_join (UPLOADS_DIR e) (filename f))
                    (or_else (prompt req) []) (uuid e) w) = Inr r"
proof (cases "req_file req")
  case None
  with assms show ?thesis by (simp add: upload_handler_no_file)
next
  case (Some f)
  let ?b = "buildPrototypeWithClaudeAgent e (path_join (UPLOADS_DIR e) (filename f))
               (or_else (prompt req) []) (uuid e) w"
  show ?thesis
  proof (cases "fst ?b")
    case (Inl err)
    from upload_handler_build_failed[OF Some Inl] assms show ?thesis by simp
  next
    case (Inr r)
    with Some show ?thesis by blast
  qed
qed

lemma upload_handler_200:
  assumes "status (fst (upload_handler e req w)) = 200"
  shows "\<exists>f r w1 h. req_file req = Some f
           \<and> buildPrototypeWithClaudeAgent e (path_join (UPLOADS_DIR e) (filename f))
                (or_else (prompt req) []) (uuid e) w = (Inr r, w1)
           \<and> addToHistory (history_write_ok e)
                (historyEntry (uuid e) f (or_else (prompt req) []) r) (history w) = Inr h
           \<and> upload_handler e req w = (success_response (uuid e) r, w1\<lparr> history := h \<rparr>)"
proof (cases "req_file req")
  case None
  with assms show ?thesis by (simp add: upload_handler_no_file no_file_response_def)
next
  case (Some f)
  let ?b = "buildPrototypeWithClaudeAgent e (path_join (UPLOADS_DIR e) (filename f))
               (or_else (prompt req) []) (uuid e) w"
  show ?thesis
  proof (cases "fst ?b")
    case (Inl err)
    from upload_handler_build_failed[OF Some Inl] assms show ?thesis
      by (simp add: error_response_def)
  next
    case (Inr r)
    then have b: "?b = (Inr r, snd ?b)" by (simp add: prod_eq_iff)
    note h = upload_handler_build_ok[OF Some b]
    show ?thesis
    proof (cases "addToHistory (history_write_ok e)
                (historyEntry (uuid e) f (or_else (prompt req) []) r) (history w)")
      case (Inl err)
      with h assms show ?thesis by (simp add: error_response_def)
    next
      case (Inr hf)
      with h Some b show ?thesis by auto
    qed
  qed
qed

lemma demo_build_refused:
  "buildPrototypeWithClaudeAgent demo_env_refused img cp sid w =
     (Inl (Error (js ''invalid x-api-key'')), w)"
  by (simp add: buildPrototypeWithClaudeAgent_def demo_env_refused_def demo_env_def)

lemma demo_build_ok:
  "\<exists>r w1. buildPrototypeWithClaudeAgent demo_env img cp sid w = (Inr r, w1)"
  by (simp add: buildPrototypeWithClaudeAgent_def demo_env_def first_text_def Let_def)

text \<open>
  Claim C2. When the build of an upload fails, whichever call failed (image processing,
  the hosted model, a file operation), the history file is left as it was and the request
  is answered with the error response, status 500, not the success record. The history
  file changes only when the build has succeeded.
\<close>

theorem failed_build_writes_no_history:
  "(req_file req = Some f
      \<and> fst (buildPrototypeWithClaudeAgent e (path_join (UPLOADS_DIR e) (filename f))
               (or_else (prompt req) []) (uuid e) w) = Inl err
     \<longrightarrow> history (snd (upload_handler e req w)) = history w
         \<and> snd (upload_handler e req w) = w
         \<and> fst (upload_handler e req w) =
             \<lparr> status = 500,
               body = JObj [(''success'', JBool False),
                            (''sessionId'', JStr (uuid e)),
                            (''error'', JStr (or_else (Some (message err))
                                           (js ''Failed to generate prototype'')))] \<rparr>)
   \<and> (history (snd (upload_handler e req w)) \<noteq> history w
     \<longrightarrow> (\<exists>f r. req_file req = Some f
           \<and> fst (buildPrototypeWithClaudeAgent e (path_join (UPLOADS_DIR e) (filename f))
                    (or_else (prompt req) []) (uuid e) w) = Inr r))"
  using upload_handler_build_failed[of req f e w err] upload_handler_history_changed[of e req w]
  by (auto simp: error_response_def)

lemma demo_upload_ok:
  "\<exists>r w1. upload_handler demo_env demo_request demo_world =
     (success_response (uuid demo_env) r,
      w1\<lparr> history := Parsed (JObj [(''sessions'',
             JArr [historyEntry (uuid demo_env) demo_file (js ''Make it dark mode'') r])]) \<rparr>)"
proof -
  let ?img = "path_join (UPLOADS_DIR demo_env) (filename demo_file)"
  from demo_build_ok[of ?img "js ''Make it dark mode''" "uuid demo_env" demo_world]
  obtain r w1 where b: "buildPrototypeWithClaudeAgent demo_env ?img (js ''Make it dark mode'')
      (uuid demo_env) demo_world = (Inr r, w1)" by blast
  have p: "or_else (prompt demo_request) [] = js ''Make it dark mode''"
    by (simp add: demo_request_def js_def)
  have f: "req_file demo_request = Some demo_file" by (simp add: demo_request_def)
  have w: "history_write_ok demo_env" by (simp add: demo_env_def)
  have a: "addToHistory True s (history demo_world) = Inr (Parsed (JObj [(''sessions'', JArr [s])]))" for s
    by (simp add: addToHistory_def demo_world_def loadHistory_def loadHistory_try_def
        empty_history_def saveHistory_def Let_def)
  from upload_handler_build_ok[OF f, of demo_env demo_world r w1] b p w a
  show ?thesis by auto
qed

theorem failed_build_writes_no_history_witness:
  "req_file demo_request = Some demo_file
   \<and> fst (buildPrototypeWithClaudeAgent demo_env_refused
            (path_join (UPLOADS_DIR demo_env_refused) (filename demo_file))
            (or_else (prompt demo_request) []) (uuid demo_env_refused) demo_world)
       = Inl (Error (js ''invalid x-api-key''))
   \<and> snd (upload_handler demo_env_refused demo_request demo_world) = demo_world
   \<and> status (fst (upload_handler demo_env_refused demo_request demo_world)) = 500
   \<and> history (snd (upload_handler demo_env demo_request demo_world)) \<noteq> history demo_world
   \<and> (\<exists>f r. req_file demo_request = Some f
         \<and> fst (buildPrototypeWithClaudeAgent demo_env (path_join (UPLOADS_DIR demo_env) (filename f))
                  (or_else (prompt demo_request) []) (uuid demo_env) demo_world) = Inr r)"
proof -
  have f: "req_file demo_request = Some demo_file" by (simp add: demo_request_def)
  have b: "fst (buildPrototypeWithClaudeAgent demo_env_refused
            (path_join (UPLOADS_DIR demo_env_refused) (filename demo_file))
            (or_else (prompt demo_request) []) (uuid demo_env_refused) demo_world)
       = Inl (Error (js ''invalid x-api-key''))"
    by (simp add: demo_build_refused)
  have c: "history (snd (upload_handler demo_env demo_request demo_world)) \<noteq> history demo_world"
    using demo_upload_ok by (auto simp: demo_world_def)
  from failed_build_writes_no_history[of demo_request demo_file demo_env_refused demo_world
      "Error (js ''invalid x-api-key'')"] f b
  have 1: "snd (upload_handler demo_env_refused demo_request demo_world) = demo_world
      \<and> status (fst (upload_handler demo_env_refused demo_request demo_world)) = 500"
    by simp
  from failed_build_writes_no_history[of demo_request demo_file demo_env demo_world
      "Error (js ''invalid x-api-key'')"] c
  have 2: "\<exists>f r. req_file demo_request = Some f
         \<and> fst (buildPrototypeWithClaudeAgent demo_env (path_join (UPLOADS_DIR demo_env) (filename f))
                  (or_else (prompt demo_request) []) (uuid demo_env) demo_world) = Inr r"
    by blast
  from f b c 1 2 show ?thesis by blast
qed

text \<open>
  Claim C8 says that every failed upload is answered with \<open>success\<close>, \<open>sessionId\<close> and
  \<open>error\<close>. The \<^verbatim>\<open>catch\<close> block does so. The guard on a request without a file answers
  with status 400 and a body that has no \<open>sessionId\<close>, though the identifier was
  generated and logged before.
\<close>

theorem no_file_response_has_no_sessionId:
  "upload_handler e \<lparr> req_file = None, prompt = p \<rparr> w =
     (\<lparr> status = 400,
        body = JObj [(''success'', JBool False), (''error'', JStr (js ''No file uploaded''))] \<rparr>, w)
   \<and> field ''sessionId'' (body (fst (upload_handler e \<lparr> req_file = None, prompt = p \<rparr> w))) = None"
  by (simp add: upload_handler_def no_file_response_def field_def)

lemma error_response_has_sessionId:
  "field ''sessionId'' (body (error_response sid err)) = Some (JStr sid)"
  by (simp add: error_response_def field_def)

lemma upload_single_filename:
  assumes "upload_single now (Some cf) = Inr (Some f)"
  shows "filename f = storage_filename now \<and> originalname f = originalname cf"
  using assms
  by (auto simp: upload_single_def client_file.extend_def uploaded_file.fields_def
      split: if_splits)

lemma historyEntry_fields:
  "field ''originalFilename'' (historyEntry sid f cp r) = Some (JStr (filename f))
   \<and> field ''customPrompt'' (historyEntry sid f cp r) = Some (JStr cp)"
  by (simp add: historyEntry_def field_def)

lemma upload_success_entry:
  assumes "status (fst (upload_handler e req w)) = 200" and "history_write_ok e"
  shows "\<exists>f r rest. req_file req = Some f
           \<and> stored_sessions (history (snd (upload_handler e req w)))
               = Some (historyEntry (uuid e) f (or_else (prompt req) []) r # rest)"
proof -
  from upload_handler_200[OF assms(1)] obtain f r w1 h where
    f: "req_file req = Some f"
    and a: "addToHistory (history_write_ok e)
                (historyEntry (uuid e) f (or_else (prompt req) []) r) (history w) = Inr h"
    and u: "upload_handler e req w = (success_response (uuid e) r, w1\<lparr> history := h \<rparr>)"
    by blast
  from addToHistory_Inr[OF a] assms(2) obtain xs where
    "stored_sessions h = Some (take 100 (historyEntry (uuid e) f (or_else (prompt req) []) r # xs))"
    by auto
  then have "stored_sessions h = Some (historyEntry (uuid e) f (or_else (prompt req) []) r # take 99 xs)"
    by simp
  with f u show ?thesis by auto
qed

lemma demo_upload_single:
  "upload_single demo_clock (Some demo_client_file) = Inr (Some demo_file)"
  by (simp add: upload_single_def fileFilter_def demo_client_file_def demo_file_def demo_clock_def
      storage_filename_def dashed_def js_def COLON_def DOT_def DASH_def
      client_file.extend_def uploaded_file.fields_def)

lemma demo_upload_status:
  "status (fst (upload_handler demo_env demo_request demo_world)) = 200"
  using demo_upload_ok by (auto simp: success_response_def)

text \<open>
  Claim C9 says that \<open>originalFilename\<close> is the original name of the uploaded file. The
  entry takes \<^verbatim>\<open>req.file.filename\<close>, the name the storage gave the file on disk: for a
  client file named \<^verbatim>\<open>sketch.png\<close> the entry holds the generated name.
\<close>

theorem originalFilename_counterexample:
  "upload_single demo_clock (Some demo_client_file) = Inr (Some demo_file)
   \<and> status (fst (upload_handler demo_env demo_request demo_world)) = 200
   \<and> map_option (map (field ''originalFilename''))
       (stored_sessions (history (snd (upload_handler demo_env demo_request demo_world))))
     = Some [Some (JStr (js ''whiteboard-2024-01-15T10-30-00-000Z.jpg''))]
   \<and> originalname demo_client_file = js ''sketch.png''
   \<and> js ''whiteboard-2024-01-15T10-30-00-000Z.jpg'' \<noteq> js ''sketch.png''"
proof -
  from demo_upload_ok obtain r w1 where
    u: "upload_handler demo_env demo_request demo_world =
     (success_response (uuid demo_env) r,
      w1\<lparr> history := Parsed (JObj [(''sessions'',
             JArr [historyEntry (uuid demo_env) demo_file (js ''Make it dark mode'') r])]) \<rparr>)"
    by blast
  have "map_option (map (field ''originalFilename''))
       (stored_sessions (history (snd (upload_handler demo_env demo_request demo_world))))
     = Some [Some (JStr (filename demo_file))]"
    by (simp add: u stored_sessions_Parsed historyEntry_fields)
  moreover have "filename demo_file = js ''whiteboard-2024-01-15T10-30-00-000Z.jpg''"
    by (simp add: demo_file_def)
  moreover have "originalname demo_client_file = js ''sketch.png''"
    by (simp add: demo_client_file_def)
  moreover have "js ''whiteboard-2024-01-15T10-30-00-000Z.jpg'' \<noteq> js ''sketch.png''"
    by (simp add: js_def)
  ultimately show ?thesis using demo_upload_single demo_upload_status by simp
qed

text \<open>
  Claim C9, amended. For every successful upload whose history write succeeds, the entry
  at index 0 of the history records in \<open>originalFilename\<close> the name under which the
  storage saved the upload (\<^verbatim>\<open>whiteboard-\<close>, the upload time with dashes, \<^verbatim>\<open>.jpg\<close>), and
  in \<open>customPrompt\<close> the instruction text as submitted, empty when there was none.
\<close>

theorem history_entry_records_stored_name:
  assumes "upload_single now (Some cf) = Inr (Some f)"
    and "status (fst (upload_handler e \<lparr> req_file = Some f, prompt = p \<rparr> w)) = 200"
    and "history_write_ok e"
  shows "\<exists>entry rest.
           stored_sessions (history (snd (upload_handler e \<lparr> req_file = Some f, prompt = p \<rparr> w)))
             = Some (entry # rest)
         \<and> field ''originalFilename'' entry = Some (JStr (storage_filename now))
         \<and> field ''customPrompt'' entry = Some (JStr (or_else p []))"
proof -
  from upload_success_entry[OF assms(2,3)] obtain r rest where
    "stored_sessions (history (snd (upload_handler e \<lparr> req_file = Some f, prompt = p \<rparr> w)))
       = Some (historyEntry (uuid e) f (or_else p []) r # rest)"
    by auto
  with historyEntry_fields[of "uuid e" f "or_else p []" r] upload_single_filename[OF assms(1)]
  show ?thesis by auto
qed

theorem history_entry_records_stored_name_witness:
  "upload_single demo_clock (Some demo_client_file) = Inr (Some demo_file)
   \<and> status (fst (upload_handler demo_env \<lparr> req_file = Some demo_file,
                 prompt = Some (js ''Make it dark mode'') \<rparr> demo_world)) = 200
   \<and> history_write_ok demo_env
   \<and> (\<exists>entry rest.
         stored_sessions (history (snd (upload_handler demo_env \<lparr> req_file = Some demo_file,
                 prompt = Some (js ''Make it dark mode'') \<rparr> demo_world)))
           = Some (entry # rest)
       \<and> field ''originalFilename'' entry = Some (JStr (storage_filename demo_clock))
       \<and> field ''customPrompt'' entry = Some (JStr (or_else (Some (js ''Make it dark mode'')) [])))"
proof -
  have s: "status (fst (upload_handler demo_env \<lparr> req_file = Some demo_file,
                 prompt = Some (js ''Make it dark mode'') \<rparr> demo_world)) = 200"
    using demo_upload_status by (simp add: demo_request_def)
  have w: "history_write_ok demo_env" by (simp add: demo_env_def)
  from history_entry_records_stored_name[OF demo_upload_single s w] demo_upload_single s w
  show ?thesis by blast
qed

end
